theory Spec2Isabelle
  imports Complex_Main
begin

section \<open>Numbers and parameters\<close>

text \<open>
  The program computes with Python floats and with symbolic UFL expressions that denote
  real-valued fields. Both are modelled by \<^typ>\<open>real\<close>: the theory is about the exact
  arithmetic the expressions denote, not about rounding, overflow or NaN.

  The module \<^verbatim>\<open>params\<close> is imported by both source files but is not part of the
  sources at hand; its constants are therefore a parameter of every definition.
  \<^verbatim>\<open>nt\<close> and \<^verbatim>\<open>nz\<close> are array extents and loop bounds, hence naturals.
\<close>

record params =
  a_exp :: real
  alpha :: real
  b_exp :: real
  dt :: real
  eps :: real
  nt :: nat
  nz :: nat
  phi_min :: real
  theta :: real

section \<open>Constitutive functions\<close>

text \<open>
  \<^verbatim>\<open>def K(phi): return (phi**a)/((1-phi)**b)\<close>, once in \<^verbatim>\<open>misc.py\<close> and once in
  \<^verbatim>\<open>solvers.py\<close>. The power with a parameter exponent is \<open>powr\<close>, which agrees with
  Python's \<^verbatim>\<open>**\<close> on a positive base. Division is HOL's total division; the
  denominator vanishes only at \<open>phi = 1\<close>.
\<close>

definition K_misc :: "params \<Rightarrow> real \<Rightarrow> real" where
  "K_misc P phi = (phi powr a_exp P) / ((1 - phi) powr b_exp P)"

definition K_solvers :: "params \<Rightarrow> real \<Rightarrow> real" where
  "K_solvers P phi = (phi powr a_exp P) / ((1 - phi) powr b_exp P)"

text \<open>
  \<^verbatim>\<open>def max(f1,f2): return 0.5*(f1+f2 + ((f1-f2)**2)**0.5)\<close>, again once per file.
  The inner exponent is the integer literal 2, the outer one the float 0.5.
\<close>

definition max_misc :: "real \<Rightarrow> real \<Rightarrow> real" where
  "max_misc f1 f2 = 0.5 * (f1 + f2 + ((f1 - f2)\<^sup>2) powr 0.5)"

definition max_solvers :: "real \<Rightarrow> real \<Rightarrow> real" where
  "max_solvers f1 f2 = 0.5 * (f1 + f2 + ((f1 - f2)\<^sup>2) powr 0.5)"

section \<open>Data model\<close>

text \<open>
  The domain is a 1-D interval mesh. It is represented by the first column of
  \<^verbatim>\<open>domain.geometry.x\<close>, the vertex coordinates in storage order; the other two columns
  of that array are zero for an interval mesh. A piecewise-linear (P1, "CG 1") field is
  the list of its nodal values, one per vertex in the same order. A solution of the mixed
  space \<^verbatim>\<open>P1*P1\<close> has the two components \<^verbatim>\<open>sol.sub(0)\<close> (the velocity w) and
  \<^verbatim>\<open>sol.sub(1)\<close> (the porosity phi).
\<close>

type_synonym domain = "real list"

record solution =
  sub0 :: "real list"
  sub1 :: "real list"

text \<open>
  The dictionary \<^verbatim>\<open>bc_top\<close> with its keys \<^verbatim>\<open>'type'\<close> (a string) and \<^verbatim>\<open>'value'\<close>
  (a number). Both keys are taken to be present, so no lookup raises \<^verbatim>\<open>KeyError\<close>.
\<close>

record bc_spec =
  bc_type :: string
  bc_value :: real

text \<open>\<^verbatim>\<open>dirichletbc(value, dofs, space)\<close>: the prescribed value and the constrained dofs.\<close>

record dirichletbc =
  dbc_value :: real
  dbc_dofs :: "nat list"

datatype error = ValueError | IndexError | RuntimeError

text \<open>
  The value of every symbol of the weak form at one point of the mesh: the unknowns
  \<open>w\<close>, \<open>phi\<close>, the test functions \<open>w_t\<close>, \<open>phi_t\<close>, the previous step \<open>w_n\<close>,
  \<open>phi_n\<close>, and the derivatives \<^verbatim>\<open>Dx(f,0)\<close> the form uses.
\<close>

record pt =
  w :: real
  Dx_w :: real
  w_t :: real
  Dx_w_t :: real
  w_n :: real
  Dx_w_n :: real
  phi :: real
  Dx_phi :: real
  phi_t :: real
  phi_n :: real
  Dx_phi_n :: real

text \<open>
  A UFL form is a sum of integrals. The source uses two measures: \<^verbatim>\<open>dx\<close> (all cells)
  and \<^verbatim>\<open>ds\<close> (all exterior facets; no sub-domain is selected anywhere). A form is kept
  as the integrand accumulated under each measure.
\<close>

record form =
  on_dx :: "pt \<Rightarrow> real"
  on_ds :: "pt \<Rightarrow> real"

text \<open>
  The external collaborators: the Newton solver behind \<^verbatim>\<open>NonlinearProblem\<close> and
  \<^verbatim>\<open>NewtonSolver.solve\<close> (\<open>None\<close> when it does not converge, which raises
  \<^verbatim>\<open>RuntimeError\<close>), the linear solver behind \<^verbatim>\<open>LinearProblem.solve\<close> for the
  Laplace problem of the mesh motion, and \<^verbatim>\<open>scipy.interpolate.griddata\<close> with
  \<^verbatim>\<open>method='linear'\<close>.
\<close>

record fem_lib =
  newton_solve :: "domain \<Rightarrow> form \<Rightarrow> dirichletbc list \<Rightarrow> solution \<Rightarrow> solution option"
  linear_solve :: "domain \<Rightarrow> dirichletbc list \<Rightarrow> real list"
  griddata :: "real list \<Rightarrow> real list \<Rightarrow> real list \<Rightarrow> real list"

section \<open>Residual builder\<close>

text \<open>
  \<^verbatim>\<open>weak_form(w,w_t,w_n,phi,phi_t,phi_n,bc_top)\<close>. The derivative of a theta-blend is
  the blend of the derivatives.
\<close>

definition w_theta :: "params \<Rightarrow> pt \<Rightarrow> real" where
  "w_theta P p = theta P * w p + (1 - theta P) * w_n p"

definition Dx_w_theta :: "params \<Rightarrow> pt \<Rightarrow> real" where
  "Dx_w_theta P p = theta P * Dx_w p + (1 - theta P) * Dx_w_n p"

definition phi_theta :: "params \<Rightarrow> pt \<Rightarrow> real" where
  "phi_theta P p = theta P * phi p + (1 - theta P) * phi_n p"

definition Dx_phi_theta :: "params \<Rightarrow> pt \<Rightarrow> real" where
  "Dx_phi_theta P p = theta P * Dx_phi p + (1 - theta P) * Dx_phi_n p"

definition F_w_dx :: "params \<Rightarrow> pt \<Rightarrow> real" where
  "F_w_dx P p = ((eps P)\<^sup>2 / K_solvers P (phi p)) * w p * w_t p
               + (1 - phi p) * Dx_w p * Dx_w_t p
               + (1 - phi p) * alpha P * w_t p"

definition F_w_ds :: "bc_spec \<Rightarrow> pt \<Rightarrow> real" where
  "F_w_ds bc_top p = (if bc_type bc_top = ''stress'' then bc_value bc_top * w_t p else 0)"

definition penalty :: "params \<Rightarrow> real \<Rightarrow> real" where
  "penalty P x = x - max_solvers (phi_min P) x"

definition F_phi_dx :: "params \<Rightarrow> pt \<Rightarrow> real" where
  "F_phi_dx P p = (phi p - phi_n p) * phi_t p
                 + dt P * w_theta P p * Dx_phi_theta P p * phi_t p
                 - dt P * (1 - phi_theta P p) * Dx_w_theta P p * phi_t p
                 + penalty P (phi p) * phi_t p"

definition weak_form :: "params \<Rightarrow> bc_spec \<Rightarrow> form" where
  "weak_form P bc_top = \<lparr>on_dx = (\<lambda>p. F_w_dx P p + F_phi_dx P p), on_ds = F_w_ds bc_top\<rparr>"

text \<open>
  On an interval mesh the exterior facets are the two end vertices, and the integral of
  an integrand over \<^verbatim>\<open>ds\<close> is the sum of its values there. The row of the assembled
  boundary integral that belongs to the test function of vertex \<open>j\<close> (the hat function
  that is 1 at \<open>j\<close> and 0 at every other vertex) is therefore the following, where \<open>vals v\<close>
  gives the values of the other symbols at vertex \<open>v\<close>.
\<close>

definition exterior_facets :: "domain \<Rightarrow> nat list" where
  "exterior_facets zs = (if length zs < 2 then [] else [0, length zs - 1])"

definition assemble_ds :: "form \<Rightarrow> domain \<Rightarrow> (nat \<Rightarrow> pt) \<Rightarrow> nat \<Rightarrow> real" where
  "assemble_ds F zs vals j =
     sum_list (map (\<lambda>v. on_ds F ((vals v)\<lparr>w_t := (if v = j then 1 else 0)\<rparr>)) (exterior_facets zs))"

section \<open>Boundary location\<close>

text \<open>
  \<^verbatim>\<open>np.isclose(x, y)\<close> with numpy's default tolerances \<^verbatim>\<open>rtol=1e-05\<close> and
  \<^verbatim>\<open>atol=1e-08\<close>.
\<close>

definition isclose :: "real \<Rightarrow> real \<Rightarrow> bool" where
  "isclose x y \<longleftrightarrow> \<bar>x - y\<bar> \<le> 1 / 10 ^ 8 + 1 / 10 ^ 5 * \<bar>y\<bar>"

text \<open>
  \<^verbatim>\<open>domain.geometry.x.max()\<close> is the maximum over the whole coordinate array, the two zero
  columns included.
\<close>

definition geometry_x_max :: "domain \<Rightarrow> real" where
  "geometry_x_max zs = fold max zs 0"

text \<open>
  \<^verbatim>\<open>locate_entities_boundary(domain, dim-1, marker)\<close>: the exterior facets whose
  coordinate satisfies the marker. \<^verbatim>\<open>locate_dofs_topological\<close>: on a P1 space the dof
  of a vertex, which carries the vertex's index.
\<close>

definition locate_entities_boundary :: "domain \<Rightarrow> (real \<Rightarrow> bool) \<Rightarrow> nat list" where
  "locate_entities_boundary zs marker = filter (\<lambda>v. marker (zs ! v)) (exterior_facets zs)"

definition locate_dofs_topological :: "nat list \<Rightarrow> nat list" where
  "locate_dofs_topological facets = facets"

section \<open>Nonlinear step solver\<close>

text \<open>\<^verbatim>\<open>Phi.x.array[Phi.x.array<phi_min] = 1.01*phi_min\<close>\<close>

definition clamp :: "params \<Rightarrow> real list \<Rightarrow> real list" where
  "clamp P Phi = map (\<lambda>x. if x < phi_min P then 1.01 * phi_min P else x) Phi"

text \<open>
  The boundary marking that \<^verbatim>\<open>solve_pde\<close> and \<^verbatim>\<open>move_mesh\<close> both perform, with
  \<^verbatim>\<open>H = domain.geometry.x.max()\<close>.
\<close>

definition facets_t :: "domain \<Rightarrow> nat list" where
  "facets_t zs = locate_entities_boundary zs (\<lambda>x. isclose x (geometry_x_max zs))"

definition facets_b :: "domain \<Rightarrow> nat list" where
  "facets_b zs = locate_entities_boundary zs (\<lambda>x. isclose x 0)"

definition dofs_t :: "domain \<Rightarrow> nat list" where
  "dofs_t zs = locate_dofs_topological (facets_t zs)"

definition dofs_b :: "domain \<Rightarrow> nat list" where
  "dofs_b zs = locate_dofs_topological (facets_b zs)"

text \<open>
  \<^verbatim>\<open>bc_b = dirichletbc(PETSc.ScalarType(0), dofs_b, V.sub(0))\<close> and
  \<^verbatim>\<open>bc_t = dirichletbc(PETSc.ScalarType(bc_top['value']), dofs_t, V.sub(0))\<close>; both
  constrain the component w.
\<close>

definition bc_b :: "domain \<Rightarrow> dirichletbc" where
  "bc_b zs = \<lparr>dbc_value = 0, dbc_dofs = dofs_b zs\<rparr>"

definition bc_t :: "domain \<Rightarrow> bc_spec \<Rightarrow> dirichletbc" where
  "bc_t zs bc_top = \<lparr>dbc_value = bc_value bc_top, dbc_dofs = dofs_t zs\<rparr>"

text \<open>
  \<^verbatim>\<open>solve_pde(domain,sol_n,bc_top)\<close>. \<^verbatim>\<open>x.max()\<close> of an empty array raises
  \<^verbatim>\<open>ValueError\<close>. The initial guess is the previous solution, interpolated component
  by component into the fresh \<^verbatim>\<open>sol\<close>; between P1 spaces on one mesh that copies the
  nodal values. The clamp re-samples \<^verbatim>\<open>sol.sub(1)\<close>, overwrites and writes back.
\<close>

definition solve_pde :: "fem_lib \<Rightarrow> params \<Rightarrow> domain \<Rightarrow> solution \<Rightarrow> bc_spec \<Rightarrow> error + solution" where
  "solve_pde L P zs sol_n bc_top =
     (if zs = [] then Inl ValueError
      else
        let bcs = (if bc_type bc_top = ''velocity'' then [bc_b zs, bc_t zs bc_top] else [bc_b zs]);
            F = weak_form P bc_top;
            guess = \<lparr>sub0 = sub0 sol_n, sub1 = sub1 sol_n\<rparr>
        in case newton_solve L zs F bcs guess of
             None \<Rightarrow> Inl RuntimeError
           | Some sol \<Rightarrow> Inr (sol\<lparr>sub1 := clamp P (sub1 sol)\<rparr>))"

section \<open>Output sampler\<close>

text \<open>
  \<^verbatim>\<open>np.linspace(start, stop, num)\<close> in exact arithmetic, for \<open>num \<ge> 1\<close> as the source
  calls it with \<open>nz+1\<close>.
\<close>

definition linspace :: "real \<Rightarrow> real \<Rightarrow> nat \<Rightarrow> real list" where
  "linspace start stop num =
     (if num = 1 then [start]
      else map (\<lambda>k. start + real k * ((stop - start) / real (num - 1))) [0..<num])"

definition list_min :: "real list \<Rightarrow> real" where
  "list_min zs = fold min (tl zs) (hd zs)"

definition list_max :: "real list \<Rightarrow> real" where
  "list_max zs = fold max (tl zs) (hd zs)"

text \<open>
  \<^verbatim>\<open>interp(f,domain)\<close>: \<open>f\<close> is the list of nodal values that the interpolation into the
  \<^verbatim>\<open>CG 1\<close> space yields. \<^verbatim>\<open>z.min()\<close> of an empty array raises \<^verbatim>\<open>ValueError\<close>.
\<close>

definition interp :: "fem_lib \<Rightarrow> params \<Rightarrow> real list \<Rightarrow> domain \<Rightarrow> error + (real list \<times> real list)" where
  "interp L P f zs =
     (if zs = [] then Inl ValueError
      else
        let z = zs;
            vals = f;
            Z = linspace (list_min z) (list_max z) (nz P + 1);
            points_i = Z;
            F = griddata L z vals points_i
        in Inr (points_i, F))"

section \<open>Mesh motion\<close>

text \<open>
  \<^verbatim>\<open>z[:,0] += v\<close> on numpy arrays: element by element when the lengths agree, the single
  value broadcast when \<open>v\<close> has length 1, \<^verbatim>\<open>ValueError\<close> otherwise.
\<close>

definition iadd :: "real list \<Rightarrow> real list \<Rightarrow> error + real list" where
  "iadd z v =
     (if length v = length z then Inr (map2 (+) z v)
      else if length v = 1 then Inr (map (\<lambda>x. x + hd v) z)
      else Inl ValueError)"

definition mesh_bcs :: "domain \<Rightarrow> real \<Rightarrow> dirichletbc list" where
  "mesh_bcs zs w_top =
     (let bc_top = \<lparr>dbc_value = w_top, dbc_dofs = dofs_t zs\<rparr>;
          bc_base = \<lparr>dbc_value = 0, dbc_dofs = dofs_b zs\<rparr>
      in [bc_top, bc_base])"

text \<open>
  \<^verbatim>\<open>move_mesh(domain,sol)\<close>. \<^verbatim>\<open>w_top.x.array[-1]\<close> raises \<^verbatim>\<open>IndexError\<close> on an empty
  array. The result is the same domain object with its coordinates updated in place.
\<close>

definition move_mesh :: "fem_lib \<Rightarrow> params \<Rightarrow> domain \<Rightarrow> solution \<Rightarrow> error + domain" where
  "move_mesh L P zs sol =
     (if zs = [] then Inl ValueError
      else if sub0 sol = [] then Inl IndexError
      else
        let w_top = last (sub0 sol);
            bcs = mesh_bcs zs w_top;
            disp_vv = linear_solve L zs bcs
        in iadd zs (map (\<lambda>d. dt P * d) disp_vv))"

text \<open>
  The linear problem that \<^verbatim>\<open>move_mesh\<close> hands to the library is
  \<^verbatim>\<open>a = Dx(disp,0)*Dx(v,0)*dx\<close>, \<^verbatim>\<open>L = 0\<close> with the Dirichlet conditions \<open>bcs\<close>. On P1
  elements the row of the test function of vertex \<open>k\<close> is the difference of the slopes of
  \<open>disp\<close> on the two cells that meet at \<open>k\<close>. A list \<open>d\<close> solves the discrete problem when it
  takes the prescribed value on every constrained dof and every other row vanishes.
\<close>

definition slope :: "domain \<Rightarrow> real list \<Rightarrow> nat \<Rightarrow> real" where
  "slope zs d k = (d ! Suc k - d ! k) / (zs ! Suc k - zs ! k)"

definition laplace_row :: "domain \<Rightarrow> real list \<Rightarrow> nat \<Rightarrow> real" where
  "laplace_row zs d k =
     (if 0 < k then slope zs d (k - 1) else 0) - (if Suc k < length zs then slope zs d k else 0)"

definition constrained :: "dirichletbc list \<Rightarrow> nat list" where
  "constrained bcs = concat (map dbc_dofs bcs)"

definition solves_laplace :: "domain \<Rightarrow> dirichletbc list \<Rightarrow> real list \<Rightarrow> bool" where
  "solves_laplace zs bcs d \<longleftrightarrow>
     length d = length zs \<and>
     list_all (\<lambda>bc. list_all (\<lambda>k. d ! k = dbc_value bc) (dbc_dofs bc)) bcs \<and>
     list_all (\<lambda>k. k \<in> set (constrained bcs) \<or> laplace_row zs d k = 0) [0..<length zs]"

section \<open>Time-marching driver\<close>

text \<open>A two-dimensional numpy array: its shape and its rows.\<close>

record ndarray =
  shape :: "nat \<times> nat"
  rows :: "real list list"

text \<open>\<^verbatim>\<open>np.zeros((n,m))\<close>\<close>

definition zeros :: "nat \<times> nat \<Rightarrow> ndarray" where
  "zeros s = \<lparr>shape = s, rows = replicate (fst s) (replicate (snd s) 0)\<rparr>"

text \<open>
  \<^verbatim>\<open>arr[i,:] = v\<close> for a one-dimensional \<open>v\<close>: the row is replaced when \<open>v\<close> has as many
  entries as the array has columns, a \<open>v\<close> of length 1 is broadcast over the row, and any
  other length raises \<^verbatim>\<open>ValueError\<close> (could not broadcast). A row index beyond the array
  raises \<^verbatim>\<open>IndexError\<close>.
\<close>

definition set_row :: "ndarray \<Rightarrow> nat \<Rightarrow> real list \<Rightarrow> error + ndarray" where
  "set_row arr i v =
     (if fst (shape arr) \<le> i then Inl IndexError
      else if length v = snd (shape arr) then Inr (arr\<lparr>rows := (rows arr)[i := v]\<rparr>)
      else if length v = 1 then Inr (arr\<lparr>rows := (rows arr)[i := replicate (snd (shape arr)) (hd v)]\<rparr>)
      else Inl ValueError)"

text \<open>
  The driver keeps references to mutable objects, so its state has a store of solution
  objects by address. \<open>fresh\<close> is the next unused address; \<open>sol_ref\<close> is the address held
  by the local variable \<^verbatim>\<open>sol\<close>, unbound before the first iteration. \<open>mesh\<close> is the
  one domain object, which \<^verbatim>\<open>move_mesh\<close> updates in place.
\<close>

record state =
  store :: "nat \<Rightarrow> solution"
  fresh :: nat
  sol_ref :: "nat option"
  mesh :: domain
  w_arr :: ndarray
  phi_arr :: ndarray
  z_arr :: ndarray

text \<open>
  \<^verbatim>\<open>dst.sub(k).interpolate(src.sub(k))\<close> between P1 spaces on one mesh: the nodal values
  of the component are copied into the object at address \<open>dst\<close>.
\<close>

definition interpolate_sub0 :: "nat \<Rightarrow> nat \<Rightarrow> (nat \<Rightarrow> solution) \<Rightarrow> (nat \<Rightarrow> solution)" where
  "interpolate_sub0 dst src h = h(dst := (h dst)\<lparr>sub0 := sub0 (h src)\<rparr>)"

definition interpolate_sub1 :: "nat \<Rightarrow> nat \<Rightarrow> (nat \<Rightarrow> solution) \<Rightarrow> (nat \<Rightarrow> solution)" where
  "interpolate_sub1 dst src h = h(dst := (h dst)\<lparr>sub1 := sub1 (h src)\<rparr>)"

text \<open>
  The body of the loop of \<^verbatim>\<open>solve\<close> for index \<open>i\<close>, with \<open>sol_n\<close> the address the
  variable of that name holds. \<^verbatim>\<open>solve_pde\<close> creates a new \<^verbatim>\<open>Function\<close>, stored at a
  fresh address. The progress line printed at the start of each iteration is not modelled.
\<close>

definition step :: "fem_lib \<Rightarrow> params \<Rightarrow> bc_spec \<Rightarrow> nat \<Rightarrow> nat \<Rightarrow> state \<Rightarrow> error + state" where
  "step L P bc_top sol_n i st =
     (case solve_pde L P (mesh st) (store st sol_n) bc_top of
        Inl e \<Rightarrow> Inl e
      | Inr sol_val \<Rightarrow>
     let a = fresh st;
         h1 = (store st)(a := sol_val)
     in
     (case interp L P (sub0 (h1 a)) (mesh st) of
        Inl e \<Rightarrow> Inl e
      | Inr (z_i0, w_i) \<Rightarrow>
     (case interp L P (sub1 (h1 a)) (mesh st) of
        Inl e \<Rightarrow> Inl e
      | Inr (z_i, phi_i) \<Rightarrow>
     (case set_row (w_arr st) i w_i of
        Inl e \<Rightarrow> Inl e
      | Inr w_arr' \<Rightarrow>
     (case set_row (phi_arr st) i phi_i of
        Inl e \<Rightarrow> Inl e
      | Inr phi_arr' \<Rightarrow>
     (case set_row (z_arr st) i z_i of
        Inl e \<Rightarrow> Inl e
      | Inr z_arr' \<Rightarrow>
     (case move_mesh L P (mesh st) (h1 a) of
        Inl e \<Rightarrow> Inl e
      | Inr mesh' \<Rightarrow>
     Inr \<lparr>store = interpolate_sub1 sol_n a (interpolate_sub0 sol_n a h1),
          fresh = Suc a,
          sol_ref = Some a,
          mesh = mesh',
          w_arr = w_arr',
          phi_arr = phi_arr',
          z_arr = z_arr'\<rparr>)))))))"

text \<open>\<^verbatim>\<open>for i in range(nt)\<close>: the first exception ends the run.\<close>

fun solve_loop :: "fem_lib \<Rightarrow> params \<Rightarrow> bc_spec \<Rightarrow> nat \<Rightarrow> nat list \<Rightarrow> state \<Rightarrow> error + state" where
  "solve_loop L P bc_top sol_n [] st = Inr st"
| "solve_loop L P bc_top sol_n (i # rest) st =
     (case step L P bc_top sol_n i st of
        Inl e \<Rightarrow> Inl e
      | Inr st' \<Rightarrow> solve_loop L P bc_top sol_n rest st')"

text \<open>
  \<^verbatim>\<open>solve(domain,initial,bc_top)\<close>, called with the store \<open>h\<close> and the next unused address
  \<open>n\<close> of the caller, the domain \<open>zs\<close> and the address \<open>initial\<close> of the initial condition.
  The three arrays are allocated with \<^verbatim>\<open>np.zeros((nt,nz))\<close>, and \<^verbatim>\<open>sol_n = initial\<close> binds
  a second name to the same object. The returned state holds the three arrays of the
  Python result, and the store and the mesh as the caller finds them.
\<close>

definition initial_state :: "params \<Rightarrow> (nat \<Rightarrow> solution) \<Rightarrow> nat \<Rightarrow> domain \<Rightarrow> state" where
  "initial_state P h n zs =
     \<lparr>store = h, fresh = n, sol_ref = None, mesh = zs,
      w_arr = zeros (nt P, nz P),
      phi_arr = zeros (nt P, nz P),
      z_arr = zeros (nt P, nz P)\<rparr>"

definition solve :: "fem_lib \<Rightarrow> params \<Rightarrow> (nat \<Rightarrow> solution) \<Rightarrow> nat \<Rightarrow> domain \<Rightarrow> nat \<Rightarrow> bc_spec \<Rightarrow> error + state" where
  "solve L P h n zs initial bc_top =
     (let sol_n = initial
      in solve_loop L P bc_top sol_n [0..<nt P] (initial_state P h n zs))"

text \<open>
  The Newton solver works on the residual with the Dirichlet conditions applied: the row
  of a dof under a Dirichlet condition is replaced by the condition itself, so an integral
  of the form contributes to the rows of the unconstrained dofs only. This is the entry of
  the boundary integral in the row of vertex \<open>j\<close> of that residual.
\<close>

definition residual_ds_row :: "form \<Rightarrow> domain \<Rightarrow> dirichletbc list \<Rightarrow> (nat \<Rightarrow> pt) \<Rightarrow> nat \<Rightarrow> real" where
  "residual_ds_row F zs bcs vals j =
     (if j \<in> set (constrained bcs) then 0 else assemble_ds F zs vals j)"

text \<open>
  The store as the caller finds it after the loop body, whether the body completes or
  raises. The body writes to the store in two places only: \<^verbatim>\<open>solve_pde\<close> returns a new
  object, and the two \<^verbatim>\<open>interpolate\<close> calls at its end copy into \<open>sol_n\<close>. An exception in
  between leaves the store with the new object and nothing else changed.
\<close>

definition step_store :: "fem_lib \<Rightarrow> params \<Rightarrow> bc_spec \<Rightarrow> nat \<Rightarrow> nat \<Rightarrow> state \<Rightarrow> (nat \<Rightarrow> solution)" where
  "step_store L P bc_top sol_n i st =
     (case step L P bc_top sol_n i st of
        Inr st' \<Rightarrow> store st'
      | Inl e \<Rightarrow>
          (case solve_pde L P (mesh st) (store st sol_n) bc_top of
             Inl e' \<Rightarrow> store st
           | Inr sol_val \<Rightarrow> (store st)(fresh st := sol_val)))"

fun solve_loop_store :: "fem_lib \<Rightarrow> params \<Rightarrow> bc_spec \<Rightarrow> nat \<Rightarrow> nat list \<Rightarrow> state \<Rightarrow> (nat \<Rightarrow> solution)" where
  "solve_loop_store L P bc_top sol_n [] st = store st"
| "solve_loop_store L P bc_top sol_n (i # rest) st =
     (case step L P bc_top sol_n i st of
        Inl e \<Rightarrow> step_store L P bc_top sol_n i st
      | Inr st' \<Rightarrow> solve_loop_store L P bc_top sol_n rest st')"

text \<open>
  The store after the call \<^verbatim>\<open>solve(domain,initial,bc_top)\<close>, whether it returns or raises.
\<close>

definition solve_store :: "fem_lib \<Rightarrow> params \<Rightarrow> (nat \<Rightarrow> solution) \<Rightarrow> nat \<Rightarrow> domain \<Rightarrow> nat \<Rightarrow> bc_spec \<Rightarrow> (nat \<Rightarrow> solution)" where
  "solve_store L P h n zs initial bc_top =
     (let sol_n = initial
      in solve_loop_store L P bc_top sol_n [0..<nt P] (initial_state P h n zs))"

text \<open>
  A stand-in for the external library, used to run the definitions on concrete inputs:
  Newton's method returns its initial guess, the linear solver returns the nodal values
  of the straight line from 0 at the first vertex to the top value at the last one, and
  the interpolation evaluates the piecewise-linear function through the data points.
\<close>

fun pw_linear :: "(real \<times> real) list \<Rightarrow> real \<Rightarrow> real" where
  "pw_linear [] x = 0"
| "pw_linear [(x0, y0)] x = y0"
| "pw_linear ((x0, y0) # (x1, y1) # ps) x =
     (if x \<le> x1 then y0 + (y1 - y0) * (x - x0) / (x1 - x0)
      else pw_linear ((x1, y1) # ps) x)"

definition demo_lib :: fem_lib where
  "demo_lib =
     \<lparr>newton_solve = (\<lambda>zs F bcs guess. Some guess),
      linear_solve = (\<lambda>zs bcs. map (\<lambda>z. dbc_value (hd bcs) * (z - hd zs) / (last zs - hd zs)) zs),
      griddata = (\<lambda>points values points_i. map (pw_linear (zip points values)) points_i)\<rparr>"

definition demo_params :: "nat \<Rightarrow> nat \<Rightarrow> params" where
  "demo_params n m =
     \<lparr>a_exp = 3, alpha = 1, b_exp = 2, dt = 1 / 10, eps = 1, nt = n, nz = m,
      phi_min = 1 / 100, theta = 1 / 2\<rparr>"

definition demo_initial :: "nat \<Rightarrow> solution" where
  "demo_initial = (\<lambda>_. \<lparr>sub0 = [0, -1], sub1 = [1 / 2, 1 / 200]\<rparr>)"

definition demo_initial3 :: "nat \<Rightarrow> solution" where
  "demo_initial3 = (\<lambda>_. \<lparr>sub0 = [0, -1 / 2, -1], sub1 = [1 / 2, 1 / 200, 1 / 2]\<rparr>)"

definition demo_velocity :: bc_spec where
  "demo_velocity = \<lparr>bc_type = ''velocity'', bc_value = -1\<rparr>"

definition demo_stress :: bc_spec where
  "demo_stress = \<lparr>bc_type = ''stress'', bc_value = 5\<rparr>"

definition demo_free :: bc_spec where
  "demo_free = \<lparr>bc_type = ''free'', bc_value = 5\<rparr>"

definition demo_pt :: pt where
  "demo_pt = \<lparr>w = 0, Dx_w = 0, w_t = 0, Dx_w_t = 0, w_n = 0, Dx_w_n = 0, phi = 1 / 2,
     Dx_phi = 0, phi_t = 0, phi_n = 1 / 2, Dx_phi_n = 0\<rparr>"

definition demo_vals :: "nat \<Rightarrow> pt" where
  "demo_vals = (\<lambda>v. demo_pt)"

text \<open>
  A driver state for \<open>nz = 1\<close> whose arrays have the \<open>nz + 1\<close> columns of a sampled
  row, so that one loop body can be run that records its rows.
\<close>

definition demo_state :: state where
  "demo_state =
     \<lparr>store = demo_initial, fresh = 1, sol_ref = None, mesh = [0, 1],
      w_arr = zeros (1, 2), phi_arr = zeros (1, 2), z_arr = zeros (1, 2)\<rparr>"

section \<open>Helper facts\<close>

lemma sq_powr_half: "((x::real)\<^sup>2) powr 0.5 = \<bar>x\<bar>"
proof -
  have "((x::real)\<^sup>2) powr 0.5 = (x\<^sup>2) powr (1/2)" by simp
  also have "\<dots> = sqrt (x\<^sup>2)" by (rule powr_half_sqrt) simp
  also have "\<dots> = \<bar>x\<bar>" by simp
  finally show ?thesis .
qed

lemma max_misc_is_max: "max_misc f1 f2 = max f1 f2"
  unfolding max_misc_def sq_powr_half by (simp add: max_def abs_if)

lemma max_solvers_is_max: "max_solvers f1 f2 = max f1 f2"
  unfolding max_solvers_def sq_powr_half by (simp add: max_def abs_if)

lemma K_misc_eq_solvers: "K_misc P x = K_solvers P x"
  by (simp add: K_misc_def K_solvers_def)

lemma K_solvers_pos: "0 < x \<Longrightarrow> x < 1 \<Longrightarrow> 0 < K_solvers P x"
  by (simp add: K_solvers_def)

lemma K_solvers_mono:
  assumes "0 \<le> a_exp P" "0 \<le> b_exp P" "0 < x" "x \<le> y" "y < 1"
  shows "K_solvers P x \<le> K_solvers P y"
proof -
  have num: "x powr a_exp P \<le> y powr a_exp P"
    using assms by (intro powr_mono2) auto
  have den: "(1 - y) powr b_exp P \<le> (1 - x) powr b_exp P"
    using assms by (intro powr_mono2) auto
  have pos: "0 < (1 - y) powr b_exp P"
    using assms by simp
  show ?thesis
    unfolding K_solvers_def using frac_le[OF _ num pos den] by simp
qed

lemma K_solvers_strict_mono:
  assumes "0 \<le> a_exp P" "0 \<le> b_exp P" "0 < a_exp P \<or> 0 < b_exp P" "0 < x" "x < y" "y < 1"
  shows "K_solvers P x < K_solvers P y"
proof -
  have num: "x powr a_exp P \<le> y powr a_exp P"
    using assms by (intro powr_mono2) auto
  have den: "(1 - y) powr b_exp P \<le> (1 - x) powr b_exp P"
    using assms by (intro powr_mono2) auto
  have pos: "0 < (1 - y) powr b_exp P" "0 < x powr a_exp P"
    using assms by simp_all
  from assms(3) show ?thesis
  proof
    assume "0 < a_exp P"
    then have "x powr a_exp P < y powr a_exp P"
      using assms by (intro powr_less_mono2) auto
    then show ?thesis
      unfolding K_solvers_def using frac_less[OF _ _ pos(1) den] by simp
  next
    assume "0 < b_exp P"
    then have "(1 - y) powr b_exp P < (1 - x) powr b_exp P"
      using assms by (intro powr_less_mono2) auto
    then show ?thesis
      unfolding K_solvers_def using frac_less2[OF pos(2) num pos(1)] by simp
  qed
qed

section \<open>The constitutive functions\<close>

text \<open>
  Claim C6. The smooth maximum, in either file, is symmetric in its arguments, returns
  \<open>f\<close> on \<open>(f, f)\<close>, and is at least each of its arguments. Read over the reals.
\<close>

theorem smooth_max_properties:
  "max_misc f1 f2 = max_misc f2 f1 \<and> max_misc f f = f \<and>
   f1 \<le> max_misc f1 f2 \<and> f2 \<le> max_misc f1 f2 \<and>
   max_solvers f1 f2 = max_solvers f2 f1 \<and> max_solvers f f = f \<and>
   f1 \<le> max_solvers f1 f2 \<and> f2 \<le> max_solvers f1 f2"
  by (simp add: max_misc_is_max max_solvers_is_max max.commute)

text \<open>
  Claim C4. The coefficient \<open>phi - max(phi_min, phi)\<close> of the penalty term of the residual
  is zero for every \<open>phi \<ge> phi_min\<close>; for every \<open>phi < phi_min\<close> it equals
  \<open>phi - phi_min\<close> and is strictly negative. The penalty term of \<open>F_phi_dx\<close> is this
  coefficient times the test function.
\<close>

theorem penalty_coefficient:
  "(phi_min P \<le> x \<longrightarrow> penalty P x = 0) \<and>
   (x < phi_min P \<longrightarrow> penalty P x = x - phi_min P \<and> penalty P x < 0)"
  by (simp add: penalty_def max_solvers_is_max max_def)

theorem penalty_coefficient_witness:
  "(phi_min (demo_params 1 1) \<le> 1 / 2 \<and> penalty (demo_params 1 1) (1 / 2) = 0) \<and>
   (1 / 200 < phi_min (demo_params 1 1) \<and>
    penalty (demo_params 1 1) (1 / 200) = 1 / 200 - phi_min (demo_params 1 1) \<and>
    penalty (demo_params 1 1) (1 / 200) < 0)"
  using penalty_coefficient [of "demo_params 1 1" "1 / 2"]
        penalty_coefficient [of "demo_params 1 1" "1 / 200"]
  by (simp add: demo_params_def)

text \<open>
  Claim C7. For \<open>phi\<close> in the open interval \<open>(phi_min, 1)\<close> the function \<open>K\<close> is strictly
  positive and increasing: \<open>K x \<le> K y\<close> for \<open>x \<le> y\<close> in the interval, strictly so for
  \<open>x < y\<close> unless both exponents are zero. The constants of \<^verbatim>\<open>params\<close> enter as
  hypotheses: the floor \<open>phi_min\<close> is not negative and neither exponent is negative.
\<close>

theorem K_positive_increasing:
  assumes "0 \<le> phi_min P" and "0 \<le> a_exp P" and "0 \<le> b_exp P"
    and "phi_min P < x" and "x \<le> y" and "y < 1"
  shows "0 < K_solvers P x \<and> 0 < K_misc P x \<and>
         K_solvers P x \<le> K_solvers P y \<and> K_misc P x \<le> K_misc P y \<and>
         (x < y \<and> (0 < a_exp P \<or> 0 < b_exp P) \<longrightarrow>
            K_solvers P x < K_solvers P y \<and> K_misc P x < K_misc P y)"
proof -
  from assms have x: "0 < x" "x < 1" by simp_all
  show ?thesis
    unfolding K_misc_eq_solvers
    using K_solvers_pos[OF x] K_solvers_mono[OF assms(2,3) x(1) assms(5,6)]
      K_solvers_strict_mono[OF assms(2,3) _ x(1) _ assms(6)]
    by blast
qed

theorem K_positive_increasing_witness:
  "0 \<le> phi_min (demo_params 1 1) \<and> 0 \<le> a_exp (demo_params 1 1) \<and>
   0 \<le> b_exp (demo_params 1 1) \<and> phi_min (demo_params 1 1) < 1 / 4 \<and>
   (1 / 4 :: real) < 1 / 2 \<and> (1 / 2 :: real) < 1 \<and>
   0 < K_solvers (demo_params 1 1) (1 / 4) \<and>
   K_solvers (demo_params 1 1) (1 / 4) < K_solvers (demo_params 1 1) (1 / 2) \<and>
   K_misc (demo_params 1 1) (1 / 4) < K_misc (demo_params 1 1) (1 / 2)"
  using K_positive_increasing [of "demo_params 1 1" "1 / 4" "1 / 2"]
  by (simp add: demo_params_def)

text \<open>
  Claim C8. The definition of \<open>K\<close> in \<^verbatim>\<open>misc.py\<close> and the one in \<^verbatim>\<open>solvers.py\<close> compute
  the same function of \<open>phi\<close>, and the two definitions of \<open>max\<close> compute the same function
  of \<open>(f1, f2)\<close>.
\<close>

theorem duplicate_definitions_agree:
  "K_misc P = K_solvers P \<and> max_misc = max_solvers"
  by (simp add: fun_eq_iff K_misc_def K_solvers_def max_misc_def max_solvers_def)

section \<open>The boundary marking\<close>

lemma geometry_x_max_Max: "geometry_x_max zs = Max (set (0 # zs))"
  unfolding geometry_x_max_def by (simp only: Max.set_eq_fold)

lemma strict_sorted_le_last:
  assumes "sorted_wrt (<) (zs :: real list)" "x \<in> set zs"
  shows "x \<le> last zs"
proof -
  from assms(2) obtain i where i: "i < length zs" "zs ! i = x" by (auto simp: in_set_conv_nth)
  then have ne: "zs \<noteq> []" by auto
  show ?thesis
  proof (cases "i = length zs - 1")
    case True
    with i ne show ?thesis by (simp add: last_conv_nth)
  next
    case False
    with i have "i < length zs - 1" by simp
    with i have "zs ! i < zs ! (length zs - 1)"
      using sorted_wrt_nth_less[OF assms(1), of i "length zs - 1"] by simp
    with i ne show ?thesis by (simp add: last_conv_nth)
  qed
qed

lemma geometry_x_max_last:
  assumes "sorted_wrt (<) zs" "zs \<noteq> []" "0 \<le> last zs"
  shows "geometry_x_max zs = last zs"
proof -
  have "Max (set (0 # zs)) = last zs"
  proof (rule Max_eqI)
    show "finite (set (0 # zs))" by simp
    show "last zs \<in> set (0 # zs)" using assms(2) by simp
    fix y assume "y \<in> set (0 # zs)"
    then show "y \<le> last zs" using assms strict_sorted_le_last[OF assms(1)] by auto
  qed
  then show ?thesis by (simp only: geometry_x_max_Max)
qed

lemma isclose_refl: "isclose x x"
  by (simp add: isclose_def)

lemma regular_mesh_dofs:
  fixes zs :: domain
  assumes inc: "sorted_wrt (<) zs" and len: "2 \<le> length zs"
    and base: "isclose (hd zs) 0" and nb: "\<not> isclose (hd zs) (last zs)"
    and ntop: "\<not> isclose (last zs) 0"
  shows "geometry_x_max zs = last zs \<and> dofs_t zs = [length zs - 1] \<and> dofs_b zs = [0]"
proof -
  from len have ne: "zs \<noteq> []" by auto
  have h: "hd zs = zs ! 0" using ne by (simp add: hd_conv_nth)
  have l: "zs ! (length zs - Suc 0) = last zs" using ne by (simp add: last_conv_nth)
  have "zs ! 0 < zs ! (length zs - Suc 0)"
    using sorted_wrt_nth_less[OF inc, of 0 "length zs - Suc 0"] len by simp
  then have lt: "hd zs < last zs" using h l by simp
  have "0 \<le> last zs"
  proof (rule ccontr)
    assume "\<not> 0 \<le> last zs"
    then have "last zs < 0" by simp
    with lt base ntop show False by (simp add: isclose_def)
  qed
  then have H: "geometry_x_max zs = last zs" by (rule geometry_x_max_last[OF inc ne])
  have f: "exterior_facets zs = [0, length zs - 1]" using len by (simp add: exterior_facets_def)
  have t: "dofs_t zs = [length zs - 1]"
    unfolding dofs_t_def facets_t_def locate_dofs_topological_def locate_entities_boundary_def f H
    using nb by (simp add: h[symmetric] l isclose_refl)
  have b: "dofs_b zs = [0]"
    unfolding dofs_b_def facets_b_def locate_dofs_topological_def locate_entities_boundary_def f
    using base ntop by (simp add: h[symmetric] l)
  from H t b show ?thesis by simp
qed

section \<open>The nonlinear step solver\<close>

lemma clamp_ge: "0 \<le> phi_min P \<Longrightarrow> x \<in> set (clamp P Phi) \<Longrightarrow> phi_min P \<le> x"
  by (auto simp: clamp_def)

lemma solve_pde_nonempty:
  "zs \<noteq> [] \<Longrightarrow> solve_pde L P zs sol_n bc_top =
     (case newton_solve L zs (weak_form P bc_top)
             (if bc_type bc_top = ''velocity'' then [bc_b zs, bc_t zs bc_top] else [bc_b zs])
             \<lparr>sub0 = sub0 sol_n, sub1 = sub1 sol_n\<rparr> of
        None \<Rightarrow> Inl RuntimeError
      | Some s \<Rightarrow> Inr (s\<lparr>sub1 := clamp P (sub1 s)\<rparr>))"
  by (simp add: solve_pde_def Let_def)

lemma solve_pde_Inr:
  assumes "solve_pde L P zs sol_n bc_top = Inr r"
  shows "zs \<noteq> [] \<and> (\<exists>bcs s. newton_solve L zs (weak_form P bc_top) bcs
             \<lparr>sub0 = sub0 sol_n, sub1 = sub1 sol_n\<rparr> = Some s \<and> r = s\<lparr>sub1 := clamp P (sub1 s)\<rparr>)"
  using assms by (auto simp: solve_pde_def Let_def split: if_splits option.splits)

lemma on_ds_weak_form:
  "on_ds (weak_form P bc_top) =
     (if bc_type bc_top = ''stress'' then (\<lambda>p. bc_value bc_top * w_t p) else (\<lambda>p. 0))"
  by (auto simp: weak_form_def F_w_ds_def fun_eq_iff)

lemma assemble_ds_stress:
  "bc_type bc_top = ''stress'' \<Longrightarrow>
   assemble_ds (weak_form P bc_top) zs vals j =
     (if j \<in> set (exterior_facets zs) then bc_value bc_top else 0)"
  by (auto simp: assemble_ds_def exterior_facets_def weak_form_def F_w_ds_def)

lemma set_row_entries:
  assumes "set_row arr i v = Inr arr'" and "length (rows arr) = fst (shape arr)"
  shows "set (rows arr' ! i) \<subseteq> set v"
proof -
  from assms(1) have i: "i < fst (shape arr)" by (auto simp: set_row_def split: if_splits)
  with assms(2) have il: "i < length (rows arr)" by simp
  from assms(1) i consider
      "length v = snd (shape arr)" "arr' = arr\<lparr>rows := (rows arr)[i := v]\<rparr>"
    | "length v = 1" "arr' = arr\<lparr>rows := (rows arr)[i := replicate (snd (shape arr)) (hd v)]\<rparr>"
    by (auto simp: set_row_def split: if_splits)
  then show ?thesis
  proof cases
    case 1
    with il show ?thesis by simp
  next
    case 2
    from 2(1) have "hd v \<in> set v" by (cases v) auto
    with 2(2) il show ?thesis by auto
  qed
qed

lemma step_phi_row:
  assumes "step L P bc_top sol_n i st = Inr st'"
  shows "\<exists>r Z F. solve_pde L P (mesh st) (store st sol_n) bc_top = Inr r \<and>
                  interp L P (sub1 r) (mesh st) = Inr (Z, F) \<and>
                  set_row (phi_arr st) i F = Inr (phi_arr st')"
  using assms by (auto simp: step_def Let_def split: sum.splits prod.splits)

lemma interp_Inr:
  "interp L P f zs = Inr (Z, F) \<Longrightarrow>
   F = griddata L zs f (linspace (list_min zs) (list_max zs) (nz P + 1))"
  by (auto simp: interp_def Let_def split: if_splits)

text \<open>
  Claim C2. When \<^verbatim>\<open>solve_pde\<close> returns, the porosity it returns is the porosity of the
  Newton solution with every nodal value below \<open>phi_min\<close> overwritten by \<open>1.01 * phi_min\<close>,
  and every nodal value is at least \<open>phi_min\<close>. Consequently, whenever the loop body of
  \<^verbatim>\<open>solve\<close> completes for index \<open>i\<close>, every entry of row \<open>i\<close> of \<open>phi_arr\<close> is at least
  \<open>phi_min\<close>. The library enters through two properties: the porosity that comes back has
  one value per vertex, and on the sampler's grid the interpolation returns no value below
  all of the data values it is given. The floor \<open>phi_min\<close> of \<^verbatim>\<open>params\<close> is taken not to
  be negative.
\<close>

theorem clamp_floor:
  assumes floor: "0 \<le> phi_min P"
  shows "(\<forall>r. solve_pde L P zs sol_n bc_top = Inr r \<longrightarrow>
            (\<exists>bcs s. newton_solve L zs (weak_form P bc_top) bcs
                       \<lparr>sub0 = sub0 sol_n, sub1 = sub1 sol_n\<rparr> = Some s \<and>
                sub1 r = map (\<lambda>x. if x < phi_min P then 1.01 * phi_min P else x) (sub1 s)) \<and>
            (\<forall>x\<in>set (sub1 r). phi_min P \<le> x)) \<and>
         (\<forall>st'. length (rows (phi_arr st)) = fst (shape (phi_arr st)) \<and>
                (\<forall>r. solve_pde L P (mesh st) (store st sol_n_addr) bc_top = Inr r \<longrightarrow>
                       length (sub1 r) = length (mesh st)) \<and>
                (\<forall>vals. length vals = length (mesh st) \<longrightarrow>
                   (\<forall>y\<in>set (griddata L (mesh st) vals
                                (linspace (list_min (mesh st)) (list_max (mesh st)) (nz P + 1))).
                      \<exists>x\<in>set vals. x \<le> y)) \<and>
                step L P bc_top sol_n_addr i st = Inr st' \<longrightarrow>
                (\<forall>y\<in>set (rows (phi_arr st') ! i). phi_min P \<le> y))"
proof (intro conjI allI impI)
  fix r assume r: "solve_pde L P zs sol_n bc_top = Inr r"
  from solve_pde_Inr[OF r] obtain bcs s where
    s: "newton_solve L zs (weak_form P bc_top) bcs
             \<lparr>sub0 = sub0 sol_n, sub1 = sub1 sol_n\<rparr> = Some s" and e: "r = s\<lparr>sub1 := clamp P (sub1 s)\<rparr>"
    by blast
  from e have c: "sub1 r = clamp P (sub1 s)" by simp
  from s c show "\<exists>bcs s. newton_solve L zs (weak_form P bc_top) bcs
                       \<lparr>sub0 = sub0 sol_n, sub1 = sub1 sol_n\<rparr> = Some s \<and>
                sub1 r = map (\<lambda>x. if x < phi_min P then 1.01 * phi_min P else x) (sub1 s)"
    unfolding clamp_def by blast
  show "\<forall>x\<in>set (sub1 r). phi_min P \<le> x" using clamp_ge[OF floor] c by simp
next
  fix st'
  assume a: "length (rows (phi_arr st)) = fst (shape (phi_arr st)) \<and>
                (\<forall>r. solve_pde L P (mesh st) (store st sol_n_addr) bc_top = Inr r \<longrightarrow>
                       length (sub1 r) = length (mesh st)) \<and>
                (\<forall>vals. length vals = length (mesh st) \<longrightarrow>
                   (\<forall>y\<in>set (griddata L (mesh st) vals
                                (linspace (list_min (mesh st)) (list_max (mesh st)) (nz P + 1))).
                      \<exists>x\<in>set vals. x \<le> y)) \<and>
                step L P bc_top sol_n_addr i st = Inr st'"
  then have wf: "length (rows (phi_arr st)) = fst (shape (phi_arr st))"
    and len: "\<forall>r. solve_pde L P (mesh st) (store st sol_n_addr) bc_top = Inr r \<longrightarrow>
                       length (sub1 r) = length (mesh st)"
    and grid: "\<forall>vals. length vals = length (mesh st) \<longrightarrow>
                   (\<forall>y\<in>set (griddata L (mesh st) vals
                                (linspace (list_min (mesh st)) (list_max (mesh st)) (nz P + 1))).
                      \<exists>x\<in>set vals. x \<le> y)"
    and stp: "step L P bc_top sol_n_addr i st = Inr st'"
    by simp_all
  from step_phi_row[OF stp] obtain r Z F where
    r: "solve_pde L P (mesh st) (store st sol_n_addr) bc_top = Inr r" and
    ip: "interp L P (sub1 r) (mesh st) = Inr (Z, F)" and
    sr: "set_row (phi_arr st) i F = Inr (phi_arr st')"
    by blast
  from solve_pde_Inr[OF r] obtain s where "r = s\<lparr>sub1 := clamp P (sub1 s)\<rparr>" by blast
  then have "sub1 r = clamp P (sub1 s)" by simp
  with clamp_ge[OF floor] have nodal: "\<forall>x\<in>set (sub1 r). phi_min P \<le> x" by simp
  from len r have "length (sub1 r) = length (mesh st)" by blast
  with grid interp_Inr[OF ip] have bound: "\<forall>y\<in>set F. \<exists>x\<in>set (sub1 r). x \<le> y" by blast
  show "\<forall>y\<in>set (rows (phi_arr st') ! i). phi_min P \<le> y"
  proof
    fix y assume "y \<in> set (rows (phi_arr st') ! i)"
    with set_row_entries[OF sr wf] have "y \<in> set F" by blast
    with bound obtain x where "x \<in> set (sub1 r)" "x \<le> y" by blast
    with nodal show "phi_min P \<le> y" by force
  qed
qed

lemma demo_solve_pde:
  "solve_pde demo_lib (demo_params 1 1) [0, 1] (demo_initial 0) demo_velocity
     = Inr \<lparr>sub0 = [0, -1], sub1 = [1 / 2, 101 / 10000]\<rparr>"
  by (simp add: solve_pde_def demo_lib_def demo_params_def demo_initial_def clamp_def Let_def)

lemma demo_griddata_bound:
  "length vals = length [0, 1 :: real] \<Longrightarrow>
   \<forall>y\<in>set (griddata demo_lib [0, 1] vals (linspace (list_min [0, 1]) (list_max [0, 1]) (nz (demo_params 1 1) + 1))).
      \<exists>x\<in>set vals. x \<le> y"
proof -
  assume "length vals = length [0, 1 :: real]"
  then obtain a b where v: "vals = [a, b]"
    by (cases vals; cases "tl vals") auto
  show ?thesis
    unfolding v
    by (simp add: demo_lib_def demo_params_def linspace_def list_min_def list_max_def upt_conv_Cons)
qed

lemma demo_recording_step:
  "\<exists>st'. step demo_lib (demo_params 1 1) demo_velocity 0 0 demo_state = Inr st' \<and>
         rows (phi_arr st') = [[1 / 2, 101 / 10000]]"
  by (simp add: demo_lib_def demo_params_def demo_initial_def demo_velocity_def step_def solve_pde_def
       interp_def linspace_def list_min_def list_max_def set_row_def zeros_def Let_def demo_state_def
       move_mesh_def iadd_def clamp_def upt_conv_Cons interpolate_sub0_def interpolate_sub1_def)

theorem clamp_floor_witness:
  "0 \<le> phi_min (demo_params 1 1) \<and>
   solve_pde demo_lib (demo_params 1 1) [0, 1] (demo_initial 0) demo_velocity
     = Inr \<lparr>sub0 = [0, -1], sub1 = [1 / 2, 101 / 10000]\<rparr> \<and>
   phi_min (demo_params 1 1) \<le> 1 / 2 \<and> phi_min (demo_params 1 1) \<le> 101 / 10000 \<and>
   (\<exists>st'. step demo_lib (demo_params 1 1) demo_velocity 0 0 demo_state = Inr st' \<and>
          rows (phi_arr st') ! 0 = [1 / 2, 101 / 10000] \<and>
          phi_min (demo_params 1 1) \<le> rows (phi_arr st') ! 0 ! 0 \<and>
          phi_min (demo_params 1 1) \<le> rows (phi_arr st') ! 0 ! 1)"
proof -
  have p: "0 \<le> phi_min (demo_params 1 1)" by (simp add: demo_params_def)
  note t = clamp_floor[OF p, of demo_lib "[0, 1]" "demo_initial 0" demo_velocity demo_state 0 0]
  from t demo_solve_pde
  have n: "\<forall>x\<in>set [1 / 2, 101 / 10000]. phi_min (demo_params 1 1) \<le> x"
    by (simp del: set_simps list.set)
  from demo_recording_step obtain st' where
    s: "step demo_lib (demo_params 1 1) demo_velocity 0 0 demo_state = Inr st'" and
    r: "rows (phi_arr st') = [[1 / 2, 101 / 10000]]" by blast
  have wf: "length (rows (phi_arr demo_state)) = fst (shape (phi_arr demo_state))"
    by (simp add: demo_state_def zeros_def)
  have m: "mesh demo_state = [0, 1]" "store demo_state 0 = demo_initial 0"
    by (simp_all add: demo_state_def)
  have len: "\<forall>r. solve_pde demo_lib (demo_params 1 1) (mesh demo_state) (store demo_state 0)
                    demo_velocity = Inr r \<longrightarrow> length (sub1 r) = length (mesh demo_state)"
    unfolding m by (simp add: demo_solve_pde del: One_nat_def)
  have grid: "\<forall>vals. length vals = length (mesh demo_state) \<longrightarrow>
                   (\<forall>y\<in>set (griddata demo_lib (mesh demo_state) vals
                                (linspace (list_min (mesh demo_state)) (list_max (mesh demo_state))
                                   (nz (demo_params 1 1) + 1))).
                      \<exists>x\<in>set vals. x \<le> y)"
    unfolding m using demo_griddata_bound by blast
  from t wf len grid s have "\<forall>y\<in>set (rows (phi_arr st') ! 0). phi_min (demo_params 1 1) \<le> y"
    by blast
  with r have rec: "phi_min (demo_params 1 1) \<le> rows (phi_arr st') ! 0 ! 0 \<and>
          phi_min (demo_params 1 1) \<le> rows (phi_arr st') ! 0 ! 1" by simp
  from n have n': "phi_min (demo_params 1 1) \<le> 1 / 2 \<and> phi_min (demo_params 1 1) \<le> 101 / 10000"
    by simp
  from r have r0: "rows (phi_arr st') ! 0 = [1 / 2, 101 / 10000]" by simp
  from p demo_solve_pde n' s r0 rec show ?thesis by blast
qed

lemma assemble_ds_zero:
  "bc_type bc_top \<noteq> ''stress'' \<Longrightarrow> assemble_ds (weak_form P bc_top) zs vals j = 0"
  by (simp add: assemble_ds_def weak_form_def F_w_ds_def)

text \<open>
  Claim C3. Take a mesh of at least two vertices with strictly increasing coordinates whose
  base lies at \<open>z = 0\<close> and whose top is told apart from the base by the boundary marking.
  The base condition \<open>w = 0\<close>, on the vertex at \<open>z = 0\<close>, is always the first Dirichlet
  condition that \<^verbatim>\<open>solve_pde\<close> hands to the Newton solver. With the type \<open>velocity\<close> the
  condition \<open>w = bc_top.value\<close> on the vertex at \<open>z = H\<close> is added and the residual has no
  boundary integral. With the type \<open>stress\<close> there is no condition at the top and the
  residual gets the integrand \<open>bc_top.value * w_t\<close> under \<open>ds\<close>; since the base vertex is
  under the base condition, the term enters the residual in the row of the top vertex and
  in no other.
\<close>

theorem bc_dispatch:
  fixes zs :: domain
  assumes inc: "sorted_wrt (<) zs" and len: "2 \<le> length zs"
    and base: "isclose (hd zs) 0" and nb: "\<not> isclose (hd zs) (last zs)"
    and ntop: "\<not> isclose (last zs) 0"
  shows "dofs_b zs = [0] \<and> isclose (zs ! 0) 0 \<and>
         dofs_t zs = [length zs - 1] \<and> zs ! (length zs - 1) = geometry_x_max zs \<and>
         (\<exists>bcs. solve_pde L P zs sol_n bc_top =
                  (case newton_solve L zs (weak_form P bc_top) bcs
                          \<lparr>sub0 = sub0 sol_n, sub1 = sub1 sol_n\<rparr> of
                     None \<Rightarrow> Inl RuntimeError
                   | Some s \<Rightarrow> Inr (s\<lparr>sub1 := clamp P (sub1 s)\<rparr>)) \<and>
            hd bcs = \<lparr>dbc_value = 0, dbc_dofs = [0]\<rparr> \<and>
            (bc_type bc_top = ''velocity'' \<longrightarrow>
               bcs = [\<lparr>dbc_value = 0, dbc_dofs = [0]\<rparr>,
                      \<lparr>dbc_value = bc_value bc_top, dbc_dofs = [length zs - 1]\<rparr>] \<and>
               on_ds (weak_form P bc_top) = (\<lambda>p. 0) \<and>
               (\<forall>j. residual_ds_row (weak_form P bc_top) zs bcs vals j = 0)) \<and>
            (bc_type bc_top = ''stress'' \<longrightarrow>
               bcs = [\<lparr>dbc_value = 0, dbc_dofs = [0]\<rparr>] \<and>
               on_ds (weak_form P bc_top) = (\<lambda>p. bc_value bc_top * w_t p) \<and>
               (\<forall>j. residual_ds_row (weak_form P bc_top) zs bcs vals j =
                      (if j = length zs - 1 then bc_value bc_top else 0))))"
proof -
  from len have ne: "zs \<noteq> []" by auto
  from regular_mesh_dofs[OF assms] have
    H: "geometry_x_max zs = last zs" and t: "dofs_t zs = [length zs - 1]" and b: "dofs_b zs = [0]"
    by simp_all
  have top: "zs ! (length zs - 1) = geometry_x_max zs" using ne H by (simp add: last_conv_nth)
  have bot: "isclose (zs ! 0) 0" using base ne by (simp add: hd_conv_nth)
  have f: "exterior_facets zs = [0, length zs - 1]" using len by (simp add: exterior_facets_def)
  define bcs where
    "bcs = (if bc_type bc_top = ''velocity'' then [bc_b zs, bc_t zs bc_top] else [bc_b zs])"
  have run: "solve_pde L P zs sol_n bc_top =
                  (case newton_solve L zs (weak_form P bc_top) bcs
                          \<lparr>sub0 = sub0 sol_n, sub1 = sub1 sol_n\<rparr> of
                     None \<Rightarrow> Inl RuntimeError
                   | Some s \<Rightarrow> Inr (s\<lparr>sub1 := clamp P (sub1 s)\<rparr>))"
    using ne by (simp add: solve_pde_nonempty bcs_def)
  have hb: "hd bcs = \<lparr>dbc_value = 0, dbc_dofs = [0]\<rparr>"
    by (simp add: bcs_def bc_b_def b)
  have vel: "bcs = [\<lparr>dbc_value = 0, dbc_dofs = [0]\<rparr>,
                      \<lparr>dbc_value = bc_value bc_top, dbc_dofs = [length zs - 1]\<rparr>] \<and>
               on_ds (weak_form P bc_top) = (\<lambda>p. 0) \<and>
               (\<forall>j. residual_ds_row (weak_form P bc_top) zs bcs vals j = 0)"
    if v: "bc_type bc_top = ''velocity''"
  proof -
    from v have ns: "bc_type bc_top \<noteq> ''stress''" by simp
    show ?thesis
      using v by (simp add: bcs_def bc_b_def bc_t_def b t on_ds_weak_form residual_ds_row_def
                    assemble_ds_zero[OF ns])
  qed
  have str: "bcs = [\<lparr>dbc_value = 0, dbc_dofs = [0]\<rparr>] \<and>
               on_ds (weak_form P bc_top) = (\<lambda>p. bc_value bc_top * w_t p) \<and>
               (\<forall>j. residual_ds_row (weak_form P bc_top) zs bcs vals j =
                      (if j = length zs - 1 then bc_value bc_top else 0))"
    if s: "bc_type bc_top = ''stress''"
  proof -
    have c: "bcs = [\<lparr>dbc_value = 0, dbc_dofs = [0]\<rparr>]" using s by (simp add: bcs_def bc_b_def b)
    have "residual_ds_row (weak_form P bc_top) zs bcs vals j =
                      (if j = length zs - 1 then bc_value bc_top else 0)" for j
      using len by (auto simp: residual_ds_row_def c constrained_def assemble_ds_stress[OF s] f)
    with c s show ?thesis by (simp add: on_ds_weak_form)
  qed
  from b bot t top run hb vel str show ?thesis by blast
qed

theorem bc_dispatch_witness:
  "sorted_wrt (<) [0, 1 :: real] \<and> isclose 0 0 \<and> \<not> isclose 0 1 \<and> \<not> isclose 1 0 \<and>
   dofs_b [0, 1] = [0] \<and> dofs_t [0, 1] = [1] \<and> geometry_x_max [0, 1] = 1 \<and>
   bc_type demo_velocity = ''velocity'' \<and> bc_type demo_stress = ''stress'' \<and>
   on_ds (weak_form (demo_params 1 1) demo_velocity) = (\<lambda>p. 0) \<and>
   on_ds (weak_form (demo_params 1 1) demo_stress) = (\<lambda>p. bc_value demo_stress * w_t p) \<and>
   residual_ds_row (weak_form (demo_params 1 1) demo_stress) [0, 1]
      [\<lparr>dbc_value = 0, dbc_dofs = [0]\<rparr>] demo_vals 0 = 0 \<and>
   residual_ds_row (weak_form (demo_params 1 1) demo_stress) [0, 1]
      [\<lparr>dbc_value = 0, dbc_dofs = [0]\<rparr>] demo_vals 1 = 5 \<and>
   residual_ds_row (weak_form (demo_params 1 1) demo_velocity) [0, 1]
      [\<lparr>dbc_value = 0, dbc_dofs = [0]\<rparr>, \<lparr>dbc_value = -1, dbc_dofs = [1]\<rparr>] demo_vals 1 = 0"
proof -
  have h: "sorted_wrt (<) [0, 1 :: real]" "2 \<le> length [0, 1 :: real]" "isclose (hd [0, 1]) 0"
    "\<not> isclose (hd [0, 1]) (last [0, 1])" "\<not> isclose (last [0, 1]) 0"
    by (simp_all add: isclose_def)
  have v: "bc_type demo_velocity = ''velocity''" and s: "bc_type demo_stress = ''stress''"
    and bv: "bc_value demo_velocity = -1" "bc_value demo_stress = 5"
    by (simp_all add: demo_velocity_def demo_stress_def)
  from bc_dispatch[OF h, of demo_lib "demo_params 1 1" "demo_initial 0" demo_velocity demo_vals] v bv
  have a: "dofs_b [0, 1] = [0] \<and> dofs_t [0, 1] = [1] \<and> geometry_x_max [0, 1] = 1 \<and>
    on_ds (weak_form (demo_params 1 1) demo_velocity) = (\<lambda>p. 0) \<and>
    residual_ds_row (weak_form (demo_params 1 1) demo_velocity) [0, 1]
      [\<lparr>dbc_value = 0, dbc_dofs = [0]\<rparr>, \<lparr>dbc_value = -1, dbc_dofs = [1]\<rparr>] demo_vals 1 = 0"
    by auto
  from bc_dispatch[OF h, of demo_lib "demo_params 1 1" "demo_initial 0" demo_stress demo_vals] s bv
  have b: "on_ds (weak_form (demo_params 1 1) demo_stress) = (\<lambda>p. bc_value demo_stress * w_t p) \<and>
    residual_ds_row (weak_form (demo_params 1 1) demo_stress) [0, 1]
      [\<lparr>dbc_value = 0, dbc_dofs = [0]\<rparr>] demo_vals 0 = 0 \<and>
    residual_ds_row (weak_form (demo_params 1 1) demo_stress) [0, 1]
      [\<lparr>dbc_value = 0, dbc_dofs = [0]\<rparr>] demo_vals 1 = 5"
    by auto
  from h a b v s show ?thesis by simp
qed

text \<open>
  Claim C10. For a \<open>bc_top\<close> whose type is neither \<open>velocity\<close> nor \<open>stress\<close> the residual
  has no boundary integral and \<^verbatim>\<open>solve_pde\<close> hands the Newton solver the base condition
  alone; its outcome is that of the Newton solve, so the type raises no error.
\<close>

theorem unknown_type_falls_through:
  assumes "bc_type bc_top \<noteq> ''velocity''" and "bc_type bc_top \<noteq> ''stress''"
  shows "on_ds (weak_form P bc_top) = (\<lambda>p. 0) \<and>
         (zs \<noteq> [] \<longrightarrow> solve_pde L P zs sol_n bc_top =
           (case newton_solve L zs (weak_form P bc_top) [bc_b zs]
                   \<lparr>sub0 = sub0 sol_n, sub1 = sub1 sol_n\<rparr> of
              None \<Rightarrow> Inl RuntimeError
            | Some s \<Rightarrow> Inr (s\<lparr>sub1 := clamp P (sub1 s)\<rparr>)))"
  using assms by (simp add: on_ds_weak_form solve_pde_nonempty)

theorem unknown_type_falls_through_witness:
  "bc_type demo_free \<noteq> ''velocity'' \<and> bc_type demo_free \<noteq> ''stress'' \<and> [0, 1 :: real] \<noteq> [] \<and>
   on_ds (weak_form (demo_params 1 1) demo_free) = (\<lambda>p. 0) \<and>
   newton_solve demo_lib [0, 1] (weak_form (demo_params 1 1) demo_free) [bc_b [0, 1]]
       \<lparr>sub0 = sub0 (demo_initial 0), sub1 = sub1 (demo_initial 0)\<rparr>
     = Some \<lparr>sub0 = [0, -1], sub1 = [1 / 2, 1 / 200]\<rparr> \<and>
   solve_pde demo_lib (demo_params 1 1) [0, 1] (demo_initial 0) demo_free
     = Inr \<lparr>sub0 = [0, -1], sub1 = [1 / 2, 101 / 10000]\<rparr>"
proof -
  have t: "bc_type demo_free \<noteq> ''velocity''" "bc_type demo_free \<noteq> ''stress''"
    by (simp_all add: demo_free_def)
  have n: "newton_solve demo_lib [0, 1] (weak_form (demo_params 1 1) demo_free) [bc_b [0, 1]]
       \<lparr>sub0 = sub0 (demo_initial 0), sub1 = sub1 (demo_initial 0)\<rparr>
     = Some \<lparr>sub0 = [0, -1], sub1 = [1 / 2, 1 / 200]\<rparr>"
    by (simp add: demo_lib_def demo_initial_def)
  have c: "clamp (demo_params 1 1) [1 / 2, 1 / 200] = [1 / 2, 101 / 10000]"
    by (simp add: clamp_def demo_params_def)
  show ?thesis
    using unknown_type_falls_through [OF t, of "demo_params 1 1" "[0, 1]" demo_lib "demo_initial 0"] t n c
    by simp
qed

section \<open>The mesh motion\<close>

lemma mesh_bcs_regular:
  assumes inc: "sorted_wrt (<) zs" and len: "2 \<le> length zs"
    and base: "isclose (hd zs) 0" and nb: "\<not> isclose (hd zs) (last zs)"
    and ntop: "\<not> isclose (last zs) 0"
  shows "mesh_bcs zs v = [\<lparr>dbc_value = v, dbc_dofs = [length zs - 1]\<rparr>,
                          \<lparr>dbc_value = 0, dbc_dofs = [0]\<rparr>]"
  using regular_mesh_dofs[OF assms] by (simp add: mesh_bcs_def Let_def)

lemma slopes_equal:
  assumes rows: "\<forall>k. 0 < k \<and> Suc k < length zs \<longrightarrow> slope zs d (k - 1) = slope zs d k"
  shows "Suc k < length zs \<Longrightarrow> slope zs d k = slope zs d 0"
proof (induction k)
  case 0
  show ?case by simp
next
  case (Suc k)
  from Suc.prems have "Suc k < length zs" by simp
  with Suc.IH have "slope zs d k = slope zs d 0" by simp
  moreover from rows Suc.prems have "slope zs d (Suc k - 1) = slope zs d (Suc k)" by blast
  ultimately show ?case by simp
qed

lemma linear_from_slopes:
  assumes inc: "sorted_wrt (<) zs"
    and eq: "\<forall>k. Suc k < length zs \<longrightarrow> slope zs d k = s"
  shows "k < length zs \<Longrightarrow> d ! k = d ! 0 + s * (zs ! k - zs ! 0)"
proof (induction k)
  case 0
  show ?case by simp
next
  case (Suc k)
  then have IH: "d ! k = d ! 0 + s * (zs ! k - zs ! 0)" by simp
  from inc Suc.prems have "zs ! k < zs ! Suc k" by (simp add: sorted_wrt_iff_nth_less)
  then have nz: "zs ! Suc k - zs ! k \<noteq> 0" by simp
  from eq Suc.prems have "(d ! Suc k - d ! k) / (zs ! Suc k - zs ! k) = s" by (simp add: slope_def)
  with nz have "d ! Suc k - d ! k = s * (zs ! Suc k - zs ! k)" by (simp add: field_simps)
  with IH show ?case by (simp add: algebra_simps)
qed


lemma iadd_same_length:
  "length v = length z \<Longrightarrow> iadd z (map (\<lambda>d. c * d) v) = Inr (map2 (\<lambda>x d. x + c * d) z v)"
  by (simp add: iadd_def zip_map2 split_def)

text \<open>
  Claim C5. Take a mesh of at least two vertices with strictly increasing coordinates whose
  base lies at \<open>z = 0\<close> and whose top is told apart from the base by the boundary marking,
  and let the library return a solution of the discrete Laplace problem. Then the
  displacement is 0 at the base and \<open>w_top\<close> at the top, \<^verbatim>\<open>move_mesh\<close> replaces every
  coordinate \<open>z\<close> by \<open>z + dt * disp\<close>, and the new coordinates are again strictly
  increasing whenever \<open>dt\<close> is below the threshold \<open>0 < (H - z_base) + dt * w_top\<close>.
\<close>

theorem move_mesh_keeps_order:
  fixes zs :: domain
  assumes inc: "sorted_wrt (<) zs" and len: "2 \<le> length zs"
    and base: "isclose (hd zs) 0" and nb: "\<not> isclose (hd zs) (last zs)"
    and ntop: "\<not> isclose (last zs) 0"
    and wne: "sub0 sol \<noteq> []"
    and lap: "solves_laplace zs (mesh_bcs zs (last (sub0 sol)))
                (linear_solve L zs (mesh_bcs zs (last (sub0 sol))))"
    and thr: "0 < (last zs - hd zs) + dt P * last (sub0 sol)"
  shows "\<exists>disp zs'.
           disp = linear_solve L zs (mesh_bcs zs (last (sub0 sol))) \<and>
           disp ! 0 = 0 \<and> disp ! (length zs - 1) = last (sub0 sol) \<and>
           move_mesh L P zs sol = Inr zs' \<and>
           zs' = map2 (\<lambda>z d. z + dt P * d) zs disp \<and>
           sorted_wrt (<) zs'"
proof -
  define w_top where "w_top = last (sub0 sol)"
  define d where "d = linear_solve L zs (mesh_bcs zs w_top)"
  define N where "N = length zs"
  from len have ne: "zs \<noteq> []" by auto
  have bcs: "mesh_bcs zs w_top = [\<lparr>dbc_value = w_top, dbc_dofs = [N - 1]\<rparr>,
                                  \<lparr>dbc_value = 0, dbc_dofs = [0]\<rparr>]"
    unfolding N_def by (rule mesh_bcs_regular[OF inc len base nb ntop])
  from lap have sl: "solves_laplace zs (mesh_bcs zs w_top) d" by (simp add: d_def w_top_def)
  from sl have ld: "length d = N" by (simp add: solves_laplace_def N_def)
  from sl have dtop: "d ! (N - 1) = w_top" and d0: "d ! 0 = 0"
    unfolding bcs by (simp_all add: solves_laplace_def)
  have rows: "\<forall>k. 0 < k \<and> Suc k < length zs \<longrightarrow> slope zs d (k - 1) = slope zs d k"
  proof (intro allI impI)
    fix k assume k: "0 < k \<and> Suc k < length zs"
    from sl have "list_all (\<lambda>k. k \<in> set (constrained (mesh_bcs zs w_top)) \<or> laplace_row zs d k = 0)
                    [0..<length zs]"
      by (simp add: solves_laplace_def)
    with k have "k \<in> set (constrained (mesh_bcs zs w_top)) \<or> laplace_row zs d k = 0"
      by (simp add: list_all_iff)
    moreover have "k \<notin> set (constrained (mesh_bcs zs w_top))"
      using k unfolding bcs by (auto simp: constrained_def N_def)
    ultimately have "laplace_row zs d k = 0" by simp
    with k show "slope zs d (k - 1) = slope zs d k" by (simp add: laplace_row_def)
  qed
  define s where "s = slope zs d 0"
  have eq: "\<forall>k. Suc k < length zs \<longrightarrow> slope zs d k = s"
    unfolding s_def using slopes_equal[OF rows] by blast
  have lin: "d ! k = s * (zs ! k - zs ! 0)" if "k < length zs" for k
    using linear_from_slopes[OF inc eq that] d0 by simp
  have h: "hd zs = zs ! 0" using ne by (simp add: hd_conv_nth)
  have l: "last zs = zs ! (N - 1)" using ne by (simp add: last_conv_nth N_def)
  have wt: "w_top = s * (last zs - hd zs)"
    using lin[of "N - 1"] dtop len by (simp add: h l N_def)
  have "(last zs - hd zs) + dt P * w_top = (last zs - hd zs) * (1 + dt P * s)"
    unfolding wt by (simp add: algebra_simps)
  with thr have pos: "0 < (last zs - hd zs) * (1 + dt P * s)"
    by (simp add: w_top_def)
  have "zs ! 0 < zs ! (N - 1)"
    using sorted_wrt_nth_less[OF inc, of 0 "N - 1"] len by (simp add: N_def)
  then have "0 < last zs - hd zs" by (simp add: h l)
  with pos have fac: "0 < 1 + dt P * s" by (simp add: zero_less_mult_iff)
  define zs' where "zs' = map2 (\<lambda>z d. z + dt P * d) zs d"
  have lz: "length zs' = length zs" by (simp add: zs'_def ld N_def)
  have nth: "zs' ! k = zs ! k + dt P * (s * (zs ! k - zs ! 0))" if "k < length zs" for k
    using that lin[OF that] by (simp add: zs'_def ld N_def)
  have ord: "sorted_wrt (<) zs'"
    unfolding sorted_wrt_iff_nth_less
  proof (intro allI impI)
    fix i j assume ij: "i < j" and j: "j < length zs'"
    then have i: "i < length zs" and j': "j < length zs" using lz by simp_all
    have "zs ! i < zs ! j" using sorted_wrt_nth_less[OF inc ij j'] .
    then have "0 < (zs ! j - zs ! i) * (1 + dt P * s)" using fac by simp
    also have "(zs ! j - zs ! i) * (1 + dt P * s) = zs' ! j - zs' ! i"
      by (simp add: nth[OF i] nth[OF j'] algebra_simps)
    finally show "zs' ! i < zs' ! j" by simp
  qed
  have mm: "move_mesh L P zs sol = Inr zs'"
    using ne wne ld
    by (simp add: move_mesh_def Let_def d_def[symmetric] w_top_def[symmetric] zs'_def
          iadd_same_length N_def)
  from d0 dtop ord mm show ?thesis
    unfolding d_def w_top_def zs'_def N_def by blast
qed


lemma demo_mesh_bcs:
  "mesh_bcs [0, 1, 2] v = [\<lparr>dbc_value = v, dbc_dofs = [2]\<rparr>, \<lparr>dbc_value = 0, dbc_dofs = [0]\<rparr>]"
  by (simp add: mesh_bcs_def dofs_t_def dofs_b_def facets_t_def facets_b_def geometry_x_max_def
        locate_entities_boundary_def exterior_facets_def locate_dofs_topological_def isclose_def Let_def)

lemma demo_laplace:
  "solves_laplace [0, 1, 2] (mesh_bcs [0, 1, 2] (-1))
     (linear_solve demo_lib [0, 1, 2] (mesh_bcs [0, 1, 2] (-1)))"
  unfolding demo_mesh_bcs
  by (simp add: solves_laplace_def demo_lib_def constrained_def laplace_row_def slope_def
        upt_conv_Cons)

theorem move_mesh_keeps_order_witness:
  "sorted_wrt (<) [0, 1, 2 :: real] \<and> isclose 0 0 \<and> \<not> isclose 0 2 \<and> \<not> isclose 2 0 \<and>
   solves_laplace [0, 1, 2] (mesh_bcs [0, 1, 2] (-1))
     (linear_solve demo_lib [0, 1, 2] (mesh_bcs [0, 1, 2] (-1))) \<and>
   0 < (2 - 0) + dt (demo_params 1 1) * (-1) \<and>
   (\<exists>disp zs'.
     disp = linear_solve demo_lib [0, 1, 2] (mesh_bcs [0, 1, 2] (last (sub0 (demo_initial3 0)))) \<and>
     disp ! 0 = 0 \<and> disp ! (length [0, 1, 2 :: real] - 1) = last (sub0 (demo_initial3 0)) \<and>
     move_mesh demo_lib (demo_params 1 1) [0, 1, 2] (demo_initial3 0) = Inr zs' \<and>
     zs' = map2 (\<lambda>z d. z + dt (demo_params 1 1) * d) [0, 1, 2] disp \<and>
     sorted_wrt (<) zs')"
proof -
  have s: "last (sub0 (demo_initial3 0)) = -1" by (simp add: demo_initial3_def)
  have h: "sorted_wrt (<) [0, 1, 2 :: real]" "isclose 0 0" "\<not> isclose 0 2" "\<not> isclose 2 0"
    "0 < (2 - 0) + dt (demo_params 1 1) * (-1)"
    by (simp_all add: isclose_def demo_params_def)
  have "\<exists>disp zs'.
     disp = linear_solve demo_lib [0, 1, 2] (mesh_bcs [0, 1, 2] (last (sub0 (demo_initial3 0)))) \<and>
     disp ! 0 = 0 \<and> disp ! (length [0, 1, 2 :: real] - 1) = last (sub0 (demo_initial3 0)) \<and>
     move_mesh demo_lib (demo_params 1 1) [0, 1, 2] (demo_initial3 0) = Inr zs' \<and>
     zs' = map2 (\<lambda>z d. z + dt (demo_params 1 1) * d) [0, 1, 2] disp \<and>
     sorted_wrt (<) zs'"
    by (rule move_mesh_keeps_order)
       (simp_all add: s demo_laplace isclose_def demo_params_def demo_initial3_def)
  with h demo_laplace show ?thesis by blast
qed

section \<open>The time-marching driver\<close>

lemma length_linspace: "0 < num \<Longrightarrow> length (linspace start stop num) = num"
  by (simp add: linspace_def)

lemma interp_nonempty:
  "zs \<noteq> [] \<Longrightarrow> \<exists>Z F. interp L P f zs = Inr (Z, F) \<and> length Z = nz P + 1"
  by (simp add: interp_def Let_def length_linspace)

lemma set_row_shape: "set_row arr i v = Inr arr' \<Longrightarrow> shape arr' = shape arr"
  by (auto simp: set_row_def split: if_splits)

lemma set_row_error: "i < fst (shape arr) \<Longrightarrow> set_row arr i v = Inl e \<Longrightarrow> e = ValueError"
  by (auto simp: set_row_def split: if_splits)

lemma set_row_too_long:
  "i < fst (shape arr) \<Longrightarrow> length v = snd (shape arr) + 1 \<Longrightarrow> 0 < snd (shape arr) \<Longrightarrow>
   set_row arr i v = Inl ValueError"
  by (simp add: set_row_def)

lemma step_shapes:
  "step L P bc_top sol_n i st = Inr st' \<Longrightarrow>
   shape (w_arr st') = shape (w_arr st) \<and> shape (phi_arr st') = shape (phi_arr st) \<and>
   shape (z_arr st') = shape (z_arr st)"
  by (auto simp: step_def Let_def split: sum.splits prod.splits dest: set_row_shape)

lemma step_raises:
  assumes w: "i < fst (shape (w_arr st))" and p: "i < fst (shape (phi_arr st))"
    and z: "i < fst (shape (z_arr st))" "snd (shape (z_arr st)) = nz P" and nz: "0 < nz P"
  shows "step L P bc_top sol_n i st =
           (case solve_pde L P (mesh st) (store st sol_n) bc_top of
              Inl e \<Rightarrow> Inl e
            | Inr r \<Rightarrow> Inl ValueError)"
proof (cases "solve_pde L P (mesh st) (store st sol_n) bc_top")
  case (Inl e)
  then show ?thesis by (simp add: step_def)
next
  case (Inr r)
  then have ne: "mesh st \<noteq> []" using solve_pde_Inr by blast
  from interp_nonempty[OF ne] obtain Z0 W where
    i0: "interp L P (sub0 r) (mesh st) = Inr (Z0, W)" by blast
  from interp_nonempty[OF ne] obtain Z F where
    i1: "interp L P (sub1 r) (mesh st) = Inr (Z, F)" and lz: "length Z = nz P + 1" by blast
  have zr: "set_row (z_arr st) i Z = Inl ValueError"
    using z nz lz by (intro set_row_too_long) simp_all
  show ?thesis
    using Inr i0 i1 zr set_row_error[OF w] set_row_error[OF p]
    by (auto simp: step_def Let_def split: sum.splits)
qed

lemma solve_loop_shapes:
  "solve_loop L P bc_top sol_n xs st = Inr st' \<Longrightarrow>
   shape (w_arr st') = shape (w_arr st) \<and> shape (phi_arr st') = shape (phi_arr st) \<and>
   shape (z_arr st') = shape (z_arr st)"
proof (induction xs arbitrary: st)
  case Nil
  then show ?case by simp
next
  case (Cons i xs)
  then obtain st1 where s: "step L P bc_top sol_n i st = Inr st1"
    and l: "solve_loop L P bc_top sol_n xs st1 = Inr st'"
    by (auto split: sum.splits)
  from Cons.IH[OF l] step_shapes[OF s] show ?case by simp
qed

lemma solve_returns_shape:
  "solve L P h n zs initial bc_top = Inr st \<Longrightarrow>
   shape (w_arr st) = (nt P, nz P) \<and> shape (phi_arr st) = (nt P, nz P) \<and>
   shape (z_arr st) = (nt P, nz P)"
  by (auto simp: solve_def initial_state_def zeros_def dest!: solve_loop_shapes)

text \<open>
  Claim C1. \<^verbatim>\<open>solve\<close> allocates its three arrays with \<open>nz\<close> columns, while every
  sampled row has \<open>nz + 1\<close> entries. With at least one step and \<open>nz \<ge> 1\<close> the first
  iteration therefore ends in an error: the one of \<^verbatim>\<open>solve_pde\<close> if it fails, and
  otherwise the \<^verbatim>\<open>ValueError\<close> of the row assignment. Whenever \<^verbatim>\<open>solve\<close> does return,
  each of the three arrays has the shape \<open>(nt, nz)\<close>, never \<open>(nt, nz + 1)\<close>.
\<close>

theorem solve_shape_defect:
  "(0 < nt P \<and> 0 < nz P \<longrightarrow>
      solve L P h n zs initial bc_top =
        (case solve_pde L P zs (h initial) bc_top of
           Inl e \<Rightarrow> Inl e
         | Inr r \<Rightarrow> Inl ValueError)) \<and>
   (\<forall>st. solve L P h n zs initial bc_top = Inr st \<longrightarrow>
      shape (w_arr st) = (nt P, nz P) \<and> shape (phi_arr st) = (nt P, nz P) \<and>
      shape (z_arr st) = (nt P, nz P))"
proof (intro conjI impI allI)
  assume a: "0 < nt P \<and> 0 < nz P"
  then have u: "[0..<nt P] = 0 # [1..<nt P]" by (simp add: upt_conv_Cons)
  have "step L P bc_top initial 0 (initial_state P h n zs) =
          (case solve_pde L P (mesh (initial_state P h n zs))
                  (store (initial_state P h n zs) initial) bc_top of
              Inl e \<Rightarrow> Inl e
            | Inr r \<Rightarrow> Inl ValueError)"
    using a by (intro step_raises) (simp_all add: initial_state_def zeros_def)
  then show "solve L P h n zs initial bc_top =
        (case solve_pde L P zs (h initial) bc_top of
           Inl e \<Rightarrow> Inl e
         | Inr r \<Rightarrow> Inl ValueError)"
    by (simp add: solve_def u initial_state_def split: sum.splits)
next
  fix st assume "solve L P h n zs initial bc_top = Inr st"
  then show "shape (w_arr st) = (nt P, nz P)" "shape (phi_arr st) = (nt P, nz P)"
    "shape (z_arr st) = (nt P, nz P)"
    by (simp_all add: solve_returns_shape)
qed

lemma demo_step:
  "\<exists>st. step demo_lib (demo_params 1 0) demo_velocity 0 0
           (initial_state (demo_params 1 0) demo_initial 1 [0, 1]) = Inr st"
  by (simp add: demo_lib_def demo_params_def demo_initial_def demo_velocity_def step_def solve_pde_def
       interp_def linspace_def list_min_def list_max_def set_row_def zeros_def Let_def initial_state_def
       move_mesh_def iadd_def)

lemma demo_run:
  "\<exists>st. solve demo_lib (demo_params 1 0) demo_initial 1 [0, 1] 0 demo_velocity = Inr st"
proof -
  from demo_step obtain st where
    "step demo_lib (demo_params 1 0) demo_velocity 0 0
       (initial_state (demo_params 1 0) demo_initial 1 [0, 1]) = Inr st"
    by blast
  moreover have "nt (demo_params 1 0) = 1" by (simp add: demo_params_def)
  ultimately have "solve demo_lib (demo_params 1 0) demo_initial 1 [0, 1] 0 demo_velocity = Inr st"
    by (simp add: solve_def)
  then show ?thesis by blast
qed

theorem solve_shape_defect_witness:
  "0 < nt (demo_params 1 1) \<and> 0 < nz (demo_params 1 1) \<and>
   solve demo_lib (demo_params 1 1) demo_initial 1 [0, 1] 0 demo_velocity = Inl ValueError \<and>
   (\<exists>st. solve demo_lib (demo_params 1 0) demo_initial 1 [0, 1] 0 demo_velocity = Inr st \<and>
      shape (w_arr st) = (1, 0) \<and> shape (phi_arr st) = (1, 0) \<and> shape (z_arr st) = (1, 0))"
proof -
  have h: "0 < nt (demo_params 1 1)" "0 < nz (demo_params 1 1)" by (simp_all add: demo_params_def)
  have e: "solve demo_lib (demo_params 1 1) demo_initial 1 [0, 1] 0 demo_velocity = Inl ValueError"
    using solve_shape_defect [of "demo_params 1 1" demo_lib demo_initial 1 "[0, 1]" 0 demo_velocity]
      demo_solve_pde h by simp
  from demo_run obtain st where
    r: "solve demo_lib (demo_params 1 0) demo_initial 1 [0, 1] 0 demo_velocity = Inr st" by blast
  have "shape (w_arr st) = (1, 0) \<and> shape (phi_arr st) = (1, 0) \<and> shape (z_arr st) = (1, 0)"
    using solve_shape_defect [of "demo_params 1 0" demo_lib demo_initial 1 "[0, 1]" 0 demo_velocity] r
    by (simp add: demo_params_def)
  with h e r show ?thesis by blast
qed

lemma step_copies:
  assumes "step L P bc_top sol_n i st = Inr st'"
  shows "\<exists>r. solve_pde L P (mesh st) (store st sol_n) bc_top = Inr r \<and>
             store st' sol_n = r \<and> sol_ref st' = Some (fresh st) \<and>
             store st' (fresh st) = r"
  using assms
  by (auto simp: step_def Let_def interpolate_sub0_def interpolate_sub1_def
           split: sum.splits prod.splits)

lemma solve_loop_append:
  "solve_loop L P bc_top sol_n (xs @ ys) st =
     (case solve_loop L P bc_top sol_n xs st of
        Inl e \<Rightarrow> Inl e
      | Inr st' \<Rightarrow> solve_loop L P bc_top sol_n ys st')"
  by (induction xs arbitrary: st) (auto split: sum.splits)

text \<open>
  The copy at the end of the loop body: when \<^verbatim>\<open>solve\<close> returns after at least one step,
  the object at the caller's address equals the solution of the final step. With the
  arrays as \<^verbatim>\<open>solve\<close> allocates them a step completes only for \<open>nz = 0\<close>.
\<close>

lemma completed_run_overwrites_initial:
  assumes ret: "solve L P h n zs initial bc_top = Inr st" and steps: "0 < nt P"
  shows "\<exists>st_prev r a.
           solve_loop L P bc_top initial [0..<nt P - 1] (initial_state P h n zs) = Inr st_prev \<and>
           solve_pde L P (mesh st_prev) (store st_prev initial) bc_top = Inr r \<and>
           step L P bc_top initial (nt P - 1) st_prev = Inr st \<and>
           sol_ref st = Some a \<and> store st a = r \<and>
           store st initial = r"
proof -
  from steps have u: "[0..<nt P] = [0..<nt P - 1] @ [nt P - 1]"
    by (metis Suc_pred' upt_Suc_append zero_le)
  from ret have "solve_loop L P bc_top initial [0..<nt P] (initial_state P h n zs) = Inr st"
    by (simp add: solve_def)
  then have "solve_loop L P bc_top initial ([0..<nt P - 1] @ [nt P - 1]) (initial_state P h n zs) = Inr st"
    using u by simp
  then obtain st_prev where
    p: "solve_loop L P bc_top initial [0..<nt P - 1] (initial_state P h n zs) = Inr st_prev" and
    l: "step L P bc_top initial (nt P - 1) st_prev = Inr st"
    by (auto simp: solve_loop_append split: sum.splits)
  from step_copies[OF l] p l show ?thesis by blast
qed

lemma demo_solve_pde0:
  "solve_pde demo_lib (demo_params 1 0) [0, 1] (demo_initial 0) demo_velocity
     = Inr \<lparr>sub0 = [0, -1], sub1 = [1 / 2, 101 / 10000]\<rparr>"
  by (simp add: solve_pde_def demo_lib_def demo_params_def demo_initial_def clamp_def Let_def)

lemma completed_run_demo:
  "\<exists>st st_prev r a.
      solve demo_lib (demo_params 1 0) demo_initial 1 [0, 1] 0 demo_velocity = Inr st \<and>
      0 < nt (demo_params 1 0) \<and>
      solve_loop demo_lib (demo_params 1 0) demo_velocity 0 [0..<nt (demo_params 1 0) - 1]
         (initial_state (demo_params 1 0) demo_initial 1 [0, 1]) = Inr st_prev \<and>
      solve_pde demo_lib (demo_params 1 0) (mesh st_prev) (store st_prev 0) demo_velocity = Inr r \<and>
      step demo_lib (demo_params 1 0) demo_velocity 0 (nt (demo_params 1 0) - 1) st_prev = Inr st \<and>
      sol_ref st = Some a \<and> store st a = r \<and> store st 0 = r \<and>
      r = \<lparr>sub0 = [0, -1], sub1 = [1 / 2, 101 / 10000]\<rparr> \<and> store st 0 \<noteq> demo_initial 0"
proof -
  from demo_run obtain st where
    r: "solve demo_lib (demo_params 1 0) demo_initial 1 [0, 1] 0 demo_velocity = Inr st" by blast
  have n: "0 < nt (demo_params 1 0)" by (simp add: demo_params_def)
  have z: "[0..<nt (demo_params 1 0) - 1] = []" by (simp add: demo_params_def)
  from completed_run_overwrites_initial[OF r n] obtain st_prev r0 a where
    p: "solve_loop demo_lib (demo_params 1 0) demo_velocity 0 [0..<nt (demo_params 1 0) - 1]
         (initial_state (demo_params 1 0) demo_initial 1 [0, 1]) = Inr st_prev" and
    s: "solve_pde demo_lib (demo_params 1 0) (mesh st_prev) (store st_prev 0) demo_velocity = Inr r0" and
    t: "step demo_lib (demo_params 1 0) demo_velocity 0 (nt (demo_params 1 0) - 1) st_prev = Inr st" and
    f: "sol_ref st = Some a" "store st a = r0" "store st 0 = r0"
    by blast
  from p have "st_prev = initial_state (demo_params 1 0) demo_initial 1 [0, 1]"
    unfolding z by simp
  then have m: "mesh st_prev = [0, 1]" "store st_prev 0 = demo_initial 0"
    by (simp_all add: initial_state_def)
  from s[unfolded m] demo_solve_pde0 have e: "r0 = \<lparr>sub0 = [0, -1], sub1 = [1 / 2, 101 / 10000]\<rparr>"
    by (simp del: One_nat_def)
  then have "r0 \<noteq> demo_initial 0" by (simp add: demo_initial_def)
  with f(3) have ne: "store st 0 \<noteq> demo_initial 0" by simp
  show ?thesis
    by (intro exI[of _ st] exI[of _ st_prev] exI[of _ r0] exI[of _ a] conjI)
       (fact r n p s t f e ne)+
qed

lemma step_store_raises:
  assumes "isl (step L P bc_top sol_n i st)" and "sol_n \<noteq> fresh st"
  shows "step_store L P bc_top sol_n i st sol_n = store st sol_n"
  using assms by (auto simp: step_store_def split: sum.splits)

text \<open>
  Claim C9. \<^verbatim>\<open>solve\<close> uses the address of the caller's initial condition as \<open>sol_n\<close>, and
  the loop body ends by copying both components of the new solution into the object at
  that address. With at least one step and \<open>nz \<ge> 1\<close>, however, the first iteration raises
  at the row assignment, before that copy: \<^verbatim>\<open>solve\<close> does not return and the caller's
  initial object is what it was before the call.
\<close>

theorem solve_raises_before_copy:
  assumes "0 < nt P" and "0 < nz P" and "initial \<noteq> n"
  shows "isl (solve L P h n zs initial bc_top) \<and>
         solve_store L P h n zs initial bc_top initial = h initial"
proof -
  from assms(1) have u: "[0..<nt P] = 0 # [1..<nt P]" by (simp add: upt_conv_Cons)
  have r: "step L P bc_top initial 0 (initial_state P h n zs) =
          (case solve_pde L P (mesh (initial_state P h n zs))
                  (store (initial_state P h n zs) initial) bc_top of
              Inl e \<Rightarrow> Inl e
            | Inr r \<Rightarrow> Inl ValueError)"
    using assms by (intro step_raises) (simp_all add: initial_state_def zeros_def)
  then have i: "isl (step L P bc_top initial 0 (initial_state P h n zs))"
    by (simp split: sum.splits)
  have s: "step_store L P bc_top initial 0 (initial_state P h n zs) initial = h initial"
    using step_store_raises[OF i] assms(3) by (simp add: initial_state_def)
  from i have 1: "isl (solve L P h n zs initial bc_top)"
    by (auto simp: solve_def u split: sum.splits)
  from i s have 2: "solve_store L P h n zs initial bc_top initial = h initial"
    by (auto simp: solve_store_def u split: sum.splits)
  from 1 2 show ?thesis by simp
qed

lemma demo_solve_store:
  "solve_store demo_lib (demo_params 1 1) demo_initial 1 [0, 1] 0 demo_velocity 1
     = \<lparr>sub0 = [0, -1], sub1 = [1 / 2, 101 / 10000]\<rparr>"
  by (simp add: solve_store_def step_store_def demo_lib_def demo_params_def demo_initial_def
        demo_velocity_def step_def solve_pde_def clamp_def initial_state_def
        interp_def linspace_def list_min_def list_max_def set_row_def zeros_def Let_def)

theorem solve_raises_before_copy_witness:
  "0 < nt (demo_params 1 1) \<and> 0 < nz (demo_params 1 1) \<and> (0 :: nat) \<noteq> 1 \<and>
   isl (solve demo_lib (demo_params 1 1) demo_initial 1 [0, 1] 0 demo_velocity) \<and>
   solve_store demo_lib (demo_params 1 1) demo_initial 1 [0, 1] 0 demo_velocity 0
     = \<lparr>sub0 = [0, -1], sub1 = [1 / 2, 1 / 200]\<rparr> \<and>
   solve_store demo_lib (demo_params 1 1) demo_initial 1 [0, 1] 0 demo_velocity 1
     = \<lparr>sub0 = [0, -1], sub1 = [1 / 2, 101 / 10000]\<rparr>"
proof -
  have h: "0 < nt (demo_params 1 1)" "0 < nz (demo_params 1 1)" "(0 :: nat) \<noteq> 1"
    by (simp_all add: demo_params_def)
  have d: "demo_initial 0 = \<lparr>sub0 = [0, -1], sub1 = [1 / 2, 1 / 200]\<rparr>"
    by (simp add: demo_initial_def)
  from solve_raises_before_copy[OF h, of demo_lib demo_initial "[0, 1]" demo_velocity] h d demo_solve_store
  show ?thesis by simp
qed

end
